theory Spec2Isabelle
  imports Complex_Main "HOL-Library.Word" "HOL-Library.Signed_Division"
begin

section \<open>Go's float64, with exact arithmetic on the finite values\<close>

text \<open>
  The metrics package computes on Go's \<^verbatim>\<open>float64\<close>. Its values are modelled as the
  finite numbers, the two infinities and NaN. Arithmetic on finite values is the exact
  arithmetic of the reals: rounding, overflow to infinity and the sign of zero are not
  modelled (every zero divisor of this package is a converted non-negative integer, a
  positive zero). What is modelled of IEEE 754 is what the code's guards are about:
  division by zero gives an infinity or NaN and never faults, NaN propagates, and every
  comparison with NaN is false.
\<close>

datatype float64 = Fin real | PosInf | NegInf | NaN

fun f64_neg :: "float64 \<Rightarrow> float64" where
  "f64_neg (Fin a) = Fin (- a)"
| "f64_neg PosInf = NegInf"
| "f64_neg NegInf = PosInf"
| "f64_neg NaN = NaN"

fun f64_add :: "float64 \<Rightarrow> float64 \<Rightarrow> float64" where
  "f64_add (Fin a) (Fin b) = Fin (a + b)"
| "f64_add NaN _ = NaN"
| "f64_add _ NaN = NaN"
| "f64_add PosInf NegInf = NaN"
| "f64_add NegInf PosInf = NaN"
| "f64_add PosInf _ = PosInf"
| "f64_add NegInf _ = NegInf"
| "f64_add (Fin a) PosInf = PosInf"
| "f64_add (Fin a) NegInf = NegInf"

definition f64_sub :: "float64 \<Rightarrow> float64 \<Rightarrow> float64" where
  "f64_sub a b = f64_add a (f64_neg b)"

text \<open>The sign of a value that is not NaN: \<open>1\<close>, \<open>0\<close> or \<open>-1\<close>.\<close>

fun f64_sgn :: "float64 \<Rightarrow> int" where
  "f64_sgn (Fin a) = (if a = 0 then 0 else if 0 < a then 1 else - 1)"
| "f64_sgn PosInf = 1"
| "f64_sgn NegInf = - 1"
| "f64_sgn NaN = 0"

definition f64_inf :: "int \<Rightarrow> float64" where
  "f64_inf s = (if s = 0 then NaN else if 0 < s then PosInf else NegInf)"

fun f64_mul :: "float64 \<Rightarrow> float64 \<Rightarrow> float64" where
  "f64_mul (Fin a) (Fin b) = Fin (a * b)"
| "f64_mul NaN _ = NaN"
| "f64_mul _ NaN = NaN"
| "f64_mul a b = f64_inf (f64_sgn a * f64_sgn b)"

fun f64_div :: "float64 \<Rightarrow> float64 \<Rightarrow> float64" where
  "f64_div (Fin a) (Fin b) = (if b = 0 then f64_inf (f64_sgn (Fin a)) else Fin (a / b))"
| "f64_div NaN _ = NaN"
| "f64_div _ NaN = NaN"
| "f64_div (Fin a) _ = Fin 0"
| "f64_div PosInf (Fin b) = (if b < 0 then NegInf else PosInf)"
| "f64_div NegInf (Fin b) = (if b < 0 then PosInf else NegInf)"
| "f64_div _ _ = NaN"

fun f64_lt :: "float64 \<Rightarrow> float64 \<Rightarrow> bool" where
  "f64_lt (Fin a) (Fin b) = (a < b)"
| "f64_lt NaN _ = False"
| "f64_lt _ NaN = False"
| "f64_lt _ NegInf = False"
| "f64_lt PosInf _ = False"
| "f64_lt _ PosInf = True"
| "f64_lt NegInf _ = True"

definition f64_gt :: "float64 \<Rightarrow> float64 \<Rightarrow> bool" where
  "f64_gt a b = f64_lt b a"

fun f64_eq :: "float64 \<Rightarrow> float64 \<Rightarrow> bool" where
  "f64_eq NaN _ = False"
| "f64_eq _ NaN = False"
| "f64_eq a b = (a = b)"

fun f64_sqrt :: "float64 \<Rightarrow> float64" where
  "f64_sqrt (Fin a) = (if a < 0 then NaN else Fin (sqrt a))"
| "f64_sqrt PosInf = PosInf"
| "f64_sqrt NegInf = NaN"
| "f64_sqrt NaN = NaN"

fun f64_floor :: "float64 \<Rightarrow> float64" where
  "f64_floor (Fin a) = Fin (of_int \<lfloor>a\<rfloor>)"
| "f64_floor x = x"

fun isNaN :: "float64 \<Rightarrow> bool" where
  "isNaN NaN = True"
| "isNaN _ = False"

section \<open>EWMA (metrics/ewma.go)\<close>

record EWMA =
  interval :: "32 word"
  alpha :: float64
  uncounted :: float64
  rate :: float64

definition NewEWMA :: "32 word \<Rightarrow> float64 \<Rightarrow> EWMA" where
  "NewEWMA interval' alpha' =
     \<lparr>interval = interval', alpha = alpha', uncounted = Fin 0, rate = Fin 0\<rparr>"

definition EWMA_Update :: "float64 \<Rightarrow> EWMA \<Rightarrow> EWMA" where
  "EWMA_Update v e = e\<lparr>uncounted := f64_add (uncounted e) v\<rparr>"

text \<open>\<^verbatim>\<open>float64(self.interval)\<close>: the conversion of a \<^verbatim>\<open>uint32\<close> is exact.\<close>

definition float64_of_uint32 :: "32 word \<Rightarrow> float64" where
  "float64_of_uint32 w = Fin (real (unat w))"

definition EWMA_Tick :: "EWMA \<Rightarrow> EWMA" where
  "EWMA_Tick e =
     (let count = uncounted e;
          e1 = e\<lparr>uncounted := Fin 0\<rparr>;
          ir = f64_div count (float64_of_uint32 (interval e1))
      in if f64_eq (rate e1) (Fin 0)
         then e1\<lparr>rate := ir\<rparr>
         else e1\<lparr>rate := f64_add (rate e1) (f64_mul (alpha e1) (f64_sub ir (rate e1)))\<rparr>)"

definition EWMA_Rate :: "EWMA \<Rightarrow> float64" where
  "EWMA_Rate e = rate e"

text \<open>The smoothing constants of ewma.go, for a tick every five seconds.\<close>

definition M1_ALPHA :: float64 where
  "M1_ALPHA = Fin (7995558537067670723530454779393039643764495849609 / 10 ^ 50)"

definition M5_ALPHA :: float64 where
  "M5_ALPHA = Fin (1652854617838250828043555884505622088909149169922 / 10 ^ 50)"

definition M15_ALPHA :: float64 where
  "M15_ALPHA = Fin (554015199510327072118798241717740893363952636719 / 10 ^ 50)"

section \<open>Histogram\<close>

text \<open>
  A panic of the Go runtime is a value of the model: an index out of range, and the two
  faults of \<^verbatim>\<open>close\<close> on a channel.
\<close>

datatype panic = IndexOutOfRange | CloseOfClosedChannel | CloseOfNilChannel

text \<open>
  The \<^verbatim>\<open>Sample\<close> interface: the four methods of an implementation, over its state
  \<open>'s\<close>. The state holds whatever the implementation draws on (its random source, its
  clock), so that each method is a function of the state.
\<close>

record 's Sample =
  Sample_Clear :: "'s \<Rightarrow> 's"
  Sample_Len :: "'s \<Rightarrow> int"
  Sample_Values :: "'s \<Rightarrow> float64 list"
  Sample_Update :: "float64 \<Rightarrow> 's \<Rightarrow> 's"

text \<open>
  The fields \<^verbatim>\<open>min\<close>, \<^verbatim>\<open>max\<close> and \<^verbatim>\<open>sum\<close> carry the suffix \<open>_h\<close>. \<^verbatim>\<open>count\<close> is Go's
  \<^verbatim>\<open>int\<close>, 64 bits wide and read as signed.
\<close>

record 's Histogram =
  sample :: 's
  min_h :: float64
  max_h :: float64
  sum_h :: float64
  count :: "64 word"
  varianceM :: float64
  varianceS :: float64

definition NewHistogram :: "'s \<Rightarrow> 's Histogram" where
  "NewHistogram s =
     \<lparr>sample = s, min_h = Fin 0, max_h = Fin 0, sum_h = Fin 0, count = 0,
      varianceM = Fin 0, varianceS = Fin 0\<rparr>"

definition Histogram_Clear :: "'s Sample \<Rightarrow> 's Histogram \<Rightarrow> 's Histogram" where
  "Histogram_Clear ops h =
     h\<lparr>sample := Sample_Clear ops (sample h), min_h := Fin 0, max_h := Fin 0,
       sum_h := Fin 0, count := 0, varianceM := Fin 0, varianceS := Fin 0\<rparr>"

text \<open>\<^verbatim>\<open>float64(n)\<close> for an \<^verbatim>\<open>int\<close>, taken as exact.\<close>

definition float64_of_int :: "64 word \<Rightarrow> float64" where
  "float64_of_int w = Fin (real_of_int (sint w))"

definition Histogram_Update :: "'s Sample \<Rightarrow> float64 \<Rightarrow> 's Histogram \<Rightarrow> 's Histogram" where
  "Histogram_Update ops v h =
     (let h1 = h\<lparr>count := count h + 1\<rparr>;
          h2 = h1\<lparr>sum_h := f64_add (sum_h h1) v\<rparr>;
          h3 = h2\<lparr>sample := Sample_Update ops v (sample h2)\<rparr>
      in if count h3 = 1
         then h3\<lparr>min_h := v, max_h := v, varianceM := v\<rparr>
         else
           (let h4 = (if f64_lt v (min_h h3) then h3\<lparr>min_h := v\<rparr> else h3);
                h5 = (if f64_gt v (max_h h4) then h4\<lparr>max_h := v\<rparr> else h4);
                old_m = varianceM h5;
                h6 = h5\<lparr>varianceM :=
                        f64_add old_m (f64_div (f64_sub v old_m) (float64_of_int (count h5)))\<rparr>
            in h6\<lparr>varianceS :=
                    f64_add (varianceS h6)
                      (f64_mul (f64_sub v old_m) (f64_sub v (varianceM h6)))\<rparr>))"

definition Histogram_Count :: "'s Histogram \<Rightarrow> 64 word" where
  "Histogram_Count h = count h"

definition Histogram_Sum :: "'s Histogram \<Rightarrow> float64" where
  "Histogram_Sum h = sum_h h"

definition Histogram_Min :: "'s Histogram \<Rightarrow> float64" where
  "Histogram_Min h = (if count h = 0 then NaN else min_h h)"

definition Histogram_Max :: "'s Histogram \<Rightarrow> float64" where
  "Histogram_Max h = (if count h = 0 then NaN else max_h h)"

definition Histogram_Mean :: "'s Histogram \<Rightarrow> float64" where
  "Histogram_Mean h =
     (if 0 < sint (count h) then f64_div (sum_h h) (float64_of_int (count h)) else Fin 0)"

definition Histogram_StdDev :: "'s Histogram \<Rightarrow> float64" where
  "Histogram_StdDev h =
     (if 0 < sint (count h)
      then f64_sqrt (f64_div (varianceS h) (float64_of_int (count h - 1)))
      else Fin 0)"

definition Histogram_Variance :: "'s Histogram \<Rightarrow> float64" where
  "Histogram_Variance h =
     (if sint (count h) \<le> 1 then Fin 0
      else f64_div (varianceS h) (float64_of_int (count h - 1)))"

definition Histogram_Values :: "'s Sample \<Rightarrow> 's Histogram \<Rightarrow> float64 list" where
  "Histogram_Values ops h = Sample_Values ops (sample h)"

subsection \<open>Percentiles\<close>

text \<open>
  \<^verbatim>\<open>sort.Sort(sort.Float64Slice(...))\<close> is the standard library's. Its order is
  \<^verbatim>\<open>Less\<close>: \<^verbatim>\<open>x[i] < x[j] || (isNaN(x[i]) && !isNaN(x[j]))\<close>, a strict total order on
  the values of this model, so the sorted slice is the one ascending arrangement; it is
  computed here by insertion. \<^verbatim>\<open>Values()\<close> is taken to return a snapshot, a slice of
  its own, as the specification has it: sorting it leaves the Sample as it was.
\<close>

definition Float64Slice_Less :: "float64 \<Rightarrow> float64 \<Rightarrow> bool" where
  "Float64Slice_Less a b = (f64_lt a b \<or> (isNaN a \<and> \<not> isNaN b))"

fun sort_insert :: "float64 \<Rightarrow> float64 list \<Rightarrow> float64 list" where
  "sort_insert x [] = [x]"
| "sort_insert x (y # ys) =
     (if Float64Slice_Less y x then y # sort_insert x ys else x # y # ys)"

definition sort_Float64Slice :: "float64 list \<Rightarrow> float64 list" where
  "sort_Float64Slice xs = foldr sort_insert xs []"

text \<open>
  \<^verbatim>\<open>int(pos)\<close> truncates towards zero. Where the truncated value does not fit Go's
  64-bit \<^verbatim>\<open>int\<close>, or \<open>pos\<close> is an infinity or NaN, the language leaves the result to the
  implementation: it is the parameter \<open>unrep\<close>.
\<close>

definition int_of_float64 :: "(float64 \<Rightarrow> 64 word) \<Rightarrow> float64 \<Rightarrow> int" where
  "int_of_float64 unrep x =
     (case x of
        Fin r \<Rightarrow>
          (let t = (if 0 \<le> r then \<lfloor>r\<rfloor> else \<lceil>r\<rceil>)
           in if - (2 ^ 63) \<le> t \<and> t < 2 ^ 63 then t else sint (unrep x))
      | _ \<Rightarrow> sint (unrep x))"

text \<open>Indexing a slice: out of its range the runtime panics.\<close>

definition index :: "'a list \<Rightarrow> int \<Rightarrow> panic + 'a" where
  "index xs i = (if 0 \<le> i \<and> i < int (length xs) then Inr (xs ! nat i) else Inl IndexOutOfRange)"

text \<open>The body of the loop of \<^verbatim>\<open>Percentiles\<close>: the score of one percentile \<open>p\<close>.\<close>

definition score :: "(float64 \<Rightarrow> 64 word) \<Rightarrow> float64 list \<Rightarrow> float64 \<Rightarrow> panic + float64" where
  "score unrep values p =
     (let pos = f64_mul p (Fin (real (length values + 1)));
          ipos = int_of_float64 unrep pos
      in if ipos < 1 then index values 0
         else if int (length values) \<le> ipos then index values (int (length values) - 1)
         else
           (case index values (ipos - 1) of
              Inl e \<Rightarrow> Inl e
            | Inr lower \<Rightarrow>
                (case index values ipos of
                   Inl e \<Rightarrow> Inl e
                 | Inr upper \<Rightarrow>
                     Inr (f64_add lower
                            (f64_mul (f64_sub pos (f64_floor pos)) (f64_sub upper lower))))))"

fun Percentiles_loop ::
  "(float64 \<Rightarrow> 64 word) \<Rightarrow> float64 list \<Rightarrow> nat \<Rightarrow> float64 list \<Rightarrow> float64 list
     \<Rightarrow> panic + float64 list" where
  "Percentiles_loop unrep values i [] scores = Inr scores"
| "Percentiles_loop unrep values i (p # ps) scores =
     (case score unrep values p of
        Inl e \<Rightarrow> Inl e
      | Inr v \<Rightarrow> Percentiles_loop unrep values (Suc i) ps (scores[i := v]))"

definition Histogram_Percentiles ::
  "'s Sample \<Rightarrow> (float64 \<Rightarrow> 64 word) \<Rightarrow> float64 list \<Rightarrow> 's Histogram \<Rightarrow> panic + float64 list" where
  "Histogram_Percentiles ops unrep percentiles h =
     (let scores = replicate (length percentiles) (Fin 0)
      in if count h = 0 then Inr scores
         else Percentiles_loop unrep (sort_Float64Slice (Sample_Values ops (sample h)))
                0 percentiles scores)"

text \<open>
  The percentile as the specification words it, for a snapshot of finite values and a
  finite \<open>p\<close>: sort the snapshot ascending, let \<open>n\<close> be its length and
  \<open>pos = p * (n + 1)\<close>; the result is the minimum element if \<open>pos < 1\<close>, the maximum
  element if \<open>pos \<ge> n\<close>, and otherwise the linear interpolation between the elements at
  ranks \<open>floor(pos)\<close> and \<open>floor(pos) + 1\<close> (the element of rank \<open>k\<close> is at index
  \<open>k - 1\<close>), weighted by the fractional part of \<open>pos\<close>.
\<close>

definition percentile_spec :: "real list \<Rightarrow> real \<Rightarrow> real" where
  "percentile_spec snapshot p =
     (let sorted = sort snapshot;
          n = length sorted;
          pos = p * real (n + 1)
      in if pos < 1 then Min (set snapshot)
         else if real n \<le> pos then Max (set snapshot)
         else (let lower = sorted ! (nat \<lfloor>pos\<rfloor> - 1);
                   upper = sorted ! (nat \<lfloor>pos\<rfloor> + 1 - 1)
               in lower + (pos - real_of_int \<lfloor>pos\<rfloor>) * (upper - lower)))"

text \<open>A run of \<^verbatim>\<open>Update\<close> calls, in the order of the list.\<close>

definition Histogram_feed :: "'s Sample \<Rightarrow> float64 list \<Rightarrow> 's Histogram \<Rightarrow> 's Histogram" where
  "Histogram_feed ops vs h = foldl (\<lambda>h' v. Histogram_Update ops v h') h vs"

subsection \<open>A Sample to run the Histogram on\<close>

text \<open>
  Modelled from the spec: UniformSample, whose source file is not among the files under
  verification. "Maintain capacity N and a running count of all items ever seen. For the
  i-th item overall (1-indexed): if i \<le> N, always insert. If i > N, draw a uniformly
  random integer r in [0, i); if r < N, overwrite reservoir slot r with the new value,
  otherwise discard it." The state is the count of items seen and the reservoir; the draw
  for the i-th item is \<open>rand i mod i\<close>, for a source \<open>rand\<close> of random numbers.
\<close>

definition UniformSample_Update ::
  "nat \<Rightarrow> (nat \<Rightarrow> nat) \<Rightarrow> float64 \<Rightarrow> nat \<times> float64 list \<Rightarrow> nat \<times> float64 list" where
  "UniformSample_Update N rand v s =
     (let i = fst s + 1; values = snd s
      in if i \<le> N then (i, values @ [v])
         else (let r = rand i mod i
               in if r < N then (i, values[r := v]) else (i, values)))"

definition UniformSample :: "nat \<Rightarrow> (nat \<Rightarrow> nat) \<Rightarrow> (nat \<times> float64 list) Sample" where
  "UniformSample N rand =
     \<lparr>Sample_Clear = (\<lambda>s. (0, [])),
      Sample_Len = (\<lambda>s. int (length (snd s))),
      Sample_Values = snd,
      Sample_Update = UniformSample_Update N rand\<rparr>"

definition NewUniformSample :: "nat \<times> float64 list" where
  "NewUniformSample = (0, [])"

section \<open>Meter\<close>

text \<open>
  A \<^verbatim>\<open>time.Time\<close> is modelled as its distance in nanoseconds from the zero Time, and
  \<^verbatim>\<open>Time.Sub\<close> as the standard library documents it: the difference as a \<^verbatim>\<open>Duration\<close>
  (an \<^verbatim>\<open>int64\<close> of nanoseconds), the largest or smallest Duration where the difference
  does not fit. \<^verbatim>\<open>Duration.Seconds\<close> is \<^verbatim>\<open>float64(d / Second) + float64(d % Second) / 1e9\<close>
  with Go's truncating division.
\<close>

type_synonym Time = int






text \<open>
  The ticker and the channel of a Meter. Nothing is ever sent on \<^verbatim>\<open>tickerStopChan\<close>:
  the channel is open or closed. A field holding \<^verbatim>\<open>nil\<close> is \<open>None\<close>. The channel has
  one holder besides the Meter's field, the watcher goroutine, which reads it through the
  field: the state of the channel is kept in the field.
\<close>

datatype Ticker = TickerRunning | TickerStopped

datatype chan = ChanOpen | ChanClosed

text \<open>The field \<^verbatim>\<open>count\<close> (a \<^verbatim>\<open>uint64\<close>) carries the suffix \<open>_m\<close>.\<close>

record Meter =
  m1Rate :: EWMA
  m5Rate :: EWMA
  m15Rate :: EWMA
  count_m :: "64 word"
  startTime :: Time
  ticker :: "Ticker option"
  tickerStopChan :: "chan option"

text \<open>
  \<^verbatim>\<open>NewMeter\<close> names five fields in its literal; \<^verbatim>\<open>count\<close> and \<^verbatim>\<open>startTime\<close> keep
  their zero values. The interval of five seconds reaches \<^verbatim>\<open>NewEWMA\<close> of ewma.go as
  its number of seconds. The goroutine that \<^verbatim>\<open>NewMeter\<close> starts is the \<open>watcher\<close> of
  the \<open>World\<close> below.
\<close>

definition NewMeter :: Meter where
  "NewMeter =
     \<lparr>m1Rate = NewEWMA 5 M1_ALPHA, m5Rate = NewEWMA 5 M5_ALPHA, m15Rate = NewEWMA 5 M15_ALPHA,
      count_m = 0, startTime = 0, ticker = Some TickerRunning, tickerStopChan = Some ChanOpen\<rparr>"

definition Meter_tick :: "Meter \<Rightarrow> Meter" where
  "Meter_tick m =
     m\<lparr>m1Rate := EWMA_Tick (m1Rate m), m5Rate := EWMA_Tick (m5Rate m),
       m15Rate := EWMA_Tick (m15Rate m)\<rparr>"

text \<open>\<^verbatim>\<open>close(c)\<close>: a panic on a nil channel and on a closed one.\<close>

definition close :: "chan option \<Rightarrow> panic + chan option" where
  "close c =
     (case c of
        None \<Rightarrow> Inl CloseOfNilChannel
      | Some ChanClosed \<Rightarrow> Inl CloseOfClosedChannel
      | Some ChanOpen \<Rightarrow> Inr (Some ChanClosed))"

definition Meter_Stop :: "Meter \<Rightarrow> panic + Meter" where
  "Meter_Stop m =
     (if ticker m \<noteq> None
      then (let m1 = m\<lparr>ticker := Some TickerStopped\<rparr>
            in case close (tickerStopChan m1) of
                 Inl e \<Rightarrow> Inl e
               | Inr c \<Rightarrow> Inr (m1\<lparr>tickerStopChan := c\<rparr>))
      else Inr m)"

definition float64_of_uint64 :: "64 word \<Rightarrow> float64" where
  "float64_of_uint64 w = Fin (real (unat w))"

definition Meter_Update :: "64 word \<Rightarrow> Meter \<Rightarrow> Meter" where
  "Meter_Update delta m =
     m\<lparr>count_m := count_m m + delta,
       m1Rate := EWMA_Update (float64_of_uint64 delta) (m1Rate m),
       m5Rate := EWMA_Update (float64_of_uint64 delta) (m5Rate m),
       m15Rate := EWMA_Update (float64_of_uint64 delta) (m15Rate m)\<rparr>"



subsection \<open>The Meter and its watcher goroutine\<close>

text \<open>
  \<^verbatim>\<open>tickWatcher\<close> runs beside the callers of the Meter. A \<open>World\<close> is the Meter and
  whether the watcher is still in its loop. The watcher takes the stop case of its
  \<^verbatim>\<open>select\<close> when a receive from \<^verbatim>\<open>tickerStopChan\<close> can proceed, that is when the channel
  is closed; it then leaves the loop and sets both fields to \<^verbatim>\<open>nil\<close>. It takes the tick
  case when the ticker delivers. An event that cannot proceed leaves the world as it is.
  The scheduler decides the order of events: a run is a list of them.
\<close>

record World =
  meter :: Meter
  watching :: bool

datatype event = CallStop | WatcherStop | WatcherTick | CallUpdate "64 word"

definition NewWorld :: World where
  "NewWorld = \<lparr>meter = NewMeter, watching = True\<rparr>"

definition step :: "event \<Rightarrow> World \<Rightarrow> panic + World" where
  "step ev w =
     (case ev of
        CallStop \<Rightarrow>
          (case Meter_Stop (meter w) of Inl e \<Rightarrow> Inl e | Inr m \<Rightarrow> Inr (w\<lparr>meter := m\<rparr>))
      | WatcherStop \<Rightarrow>
          (if watching w \<and> tickerStopChan (meter w) = Some ChanClosed
           then Inr \<lparr>meter = (meter w)\<lparr>ticker := None, tickerStopChan := None\<rparr>,
                     watching = False\<rparr>
           else Inr w)
      | WatcherTick \<Rightarrow>
          (if watching w \<and> ticker (meter w) = Some TickerRunning
           then Inr (w\<lparr>meter := Meter_tick (meter w)\<rparr>)
           else Inr w)
      | CallUpdate delta \<Rightarrow> Inr (w\<lparr>meter := Meter_Update delta (meter w)\<rparr>))"

fun run :: "event list \<Rightarrow> World \<Rightarrow> panic + World" where
  "run [] w = Inr w"
| "run (ev # evs) w = (case step ev w of Inl e \<Rightarrow> Inl e | Inr w' \<Rightarrow> run evs w')"

section \<open>EWMA: what a tick does\<close>

lemma EWMA_Tick_unfold:
  "EWMA_Tick e =
     e\<lparr>uncounted := Fin 0,
       rate := (if f64_eq (rate e) (Fin 0)
                then f64_div (uncounted e) (float64_of_uint32 (interval e))
                else f64_add (rate e)
                       (f64_mul (alpha e)
                          (f64_sub (f64_div (uncounted e) (float64_of_uint32 (interval e)))
                             (rate e))))\<rparr>"
  by (simp add: EWMA_Tick_def Let_def)

text \<open>
  C1, as the code has it. A tick divides the accumulator by the interval, resets the
  accumulator to zero and leaves interval and alpha alone. The test that selects
  \<open>rate := instantRate\<close> is \<^verbatim>\<open>self.rate == 0.0\<close>, on the first tick and on every later
  one: a rate that compares equal to zero is replaced by the instantaneous rate, any
  other rate moves by \<open>alpha * (instantRate - rate)\<close>.
\<close>

theorem EWMA_Tick_rate:
  "uncounted (EWMA_Tick e) = Fin 0 \<and>
   interval (EWMA_Tick e) = interval e \<and>
   alpha (EWMA_Tick e) = alpha e \<and>
   rate (EWMA_Tick e) =
     (if f64_eq (rate e) (Fin 0)
      then f64_div (uncounted e) (float64_of_uint32 (interval e))
      else f64_add (rate e)
             (f64_mul (alpha e)
                (f64_sub (f64_div (uncounted e) (float64_of_uint32 (interval e))) (rate e))))"
  by (simp add: EWMA_Tick_unfold)

text \<open>
  C1 as stated fails on a later tick that finds the rate at zero. An EWMA of interval 5
  and alpha 1/2 is ticked once with nothing accumulated (the rate stays 0), takes
  \<open>Update(10)\<close> and is ticked again: this second tick sets the rate to the instantaneous
  rate 2, where \<open>rate += alpha * (instantRate - rate)\<close> gives 1.
\<close>

theorem EWMA_Tick_later_tick_counterexample:
  "rate (EWMA_Tick (EWMA_Update (Fin 10) (EWMA_Tick (NewEWMA 5 (Fin (1 / 2)))))) = Fin 2 \<and>
   f64_add (rate (EWMA_Update (Fin 10) (EWMA_Tick (NewEWMA 5 (Fin (1 / 2))))))
     (f64_mul (alpha (EWMA_Update (Fin 10) (EWMA_Tick (NewEWMA 5 (Fin (1 / 2))))))
        (f64_sub
           (f64_div (uncounted (EWMA_Update (Fin 10) (EWMA_Tick (NewEWMA 5 (Fin (1 / 2))))))
              (float64_of_uint32
                 (interval (EWMA_Update (Fin 10) (EWMA_Tick (NewEWMA 5 (Fin (1 / 2))))))))
           (rate (EWMA_Update (Fin 10) (EWMA_Tick (NewEWMA 5 (Fin (1 / 2)))))))) = Fin 1"
  by (simp add: EWMA_Tick_unfold EWMA_Update_def NewEWMA_def float64_of_uint32_def f64_sub_def)

section \<open>Meter: stopping twice, and the mean rate\<close>

text \<open>
  C2. \<^verbatim>\<open>Stop\<close> tests \<^verbatim>\<open>m.ticker != nil\<close>, and only the watcher goroutine sets the field
  to \<^verbatim>\<open>nil\<close>, when it next runs. In the run where \<^verbatim>\<open>Stop\<close> is called twice before
  the watcher is scheduled, the second call closes the closed channel and panics.
\<close>

theorem Meter_Stop_twice_panics:
  "run [CallStop, CallStop] NewWorld = Inl CloseOfClosedChannel"
  by (simp add: step_def NewWorld_def NewMeter_def Meter_Stop_def close_def)

lemma Meter_Stop_after_watcher_exit:
  "run [CallStop, WatcherStop, CallStop] NewWorld = run [CallStop, WatcherStop] NewWorld"
  by (simp add: step_def NewWorld_def NewMeter_def Meter_Stop_def close_def)

lemma Meter_Stop_nil_ticker: "ticker m = None \<Longrightarrow> Meter_Stop m = Inr m"
  by (simp add: Meter_Stop_def)






lemma NewMeter_startTime: "startTime NewMeter = 0"
  by (simp add: NewMeter_def)



section \<open>Histogram: the empty state and the state after one value\<close>

lemma sint_eq_1: "sint (w::64 word) = 1 \<Longrightarrow> w = 1"
proof -
  assume a: "sint w = 1"
  have "word_of_int (sint w) = w" by simp
  then show ?thesis unfolding a by simp
qed

lemma sint_of_nat_small: "n < 2 ^ 63 \<Longrightarrow> sint (of_nat n :: 64 word) = int n"
proof -
  assume a: "n < 2 ^ 63"
  then have "int n < 2 ^ 63" by (metis of_nat_less_numeral_power_cancel_iff)
  then have "signed_take_bit 63 (int n) = int n"
    by (simp add: signed_take_bit_int_eq_self)
  then show ?thesis by (simp add: signed_of_nat)
qed

lemma word_of_nat_eq_1_iff: "n < 2 ^ 63 \<Longrightarrow> ((of_nat n :: 64 word) = 1) = (n = 1)"
proof
  assume a: "n < 2 ^ 63" and b: "(of_nat n :: 64 word) = 1"
  have "sint (of_nat n :: 64 word) = 1" unfolding b by simp
  then show "n = 1" using sint_of_nat_small[OF a] by simp
next
  assume "n = 1" then show "(of_nat n :: 64 word) = 1" by simp
qed

lemma word_of_nat_eq_0_iff: "n < 2 ^ 63 \<Longrightarrow> ((of_nat n :: 64 word) = 0) = (n = 0)"
proof
  assume a: "n < 2 ^ 63" and b: "(of_nat n :: 64 word) = 0"
  have "sint (of_nat n :: 64 word) = 0" unfolding b by simp
  then show "n = 0" using sint_of_nat_small[OF a] by simp
next
  assume "n = 0" then show "(of_nat n :: 64 word) = 0" by simp
qed

text \<open>
  C7. With a count of zero, \<^verbatim>\<open>Min\<close> and \<^verbatim>\<open>Max\<close> return NaN, and \<^verbatim>\<open>Mean\<close>, \<^verbatim>\<open>Variance\<close>
  and \<^verbatim>\<open>StdDev\<close> return 0.
\<close>

theorem Histogram_empty_sentinels:
  "count h = 0 \<Longrightarrow>
   Histogram_Min h = NaN \<and> Histogram_Max h = NaN \<and> Histogram_Mean h = Fin 0 \<and>
   Histogram_Variance h = Fin 0 \<and> Histogram_StdDev h = Fin 0"
  by (simp add: Histogram_Min_def Histogram_Max_def Histogram_Mean_def Histogram_Variance_def
      Histogram_StdDev_def)

theorem Histogram_empty_sentinels_witness:
  "count (NewHistogram NewUniformSample) = 0 \<and>
   Histogram_Min (NewHistogram NewUniformSample) = NaN \<and>
   Histogram_Max (NewHistogram NewUniformSample) = NaN \<and>
   Histogram_Mean (NewHistogram NewUniformSample) = Fin 0 \<and>
   Histogram_Variance (NewHistogram NewUniformSample) = Fin 0 \<and>
   Histogram_StdDev (NewHistogram NewUniformSample) = Fin 0"
proof -
  have c: "count (NewHistogram NewUniformSample) = 0"
    by (simp add: NewHistogram_def)
  show ?thesis
    using c Histogram_empty_sentinels [OF c] by simp
qed

text \<open>
  C4. \<^verbatim>\<open>StdDev\<close> guards its division with \<^verbatim>\<open>count > 0\<close> where \<^verbatim>\<open>Variance\<close> guards it
  with \<^verbatim>\<open>count <= 1\<close>. After the first value the count is 1 and S is 0: \<^verbatim>\<open>StdDev\<close>
  divides 0 by \<^verbatim>\<open>float64(0)\<close> and returns the square root of NaN, while the square
  root of \<^verbatim>\<open>Variance()\<close> is 0.
\<close>

theorem Histogram_StdDev_after_one_value:
  "Histogram_StdDev (Histogram_Update ops v (NewHistogram s)) = NaN \<and>
   f64_sqrt (Histogram_Variance (Histogram_Update ops v (NewHistogram s))) = Fin 0"
  by (simp add: Histogram_StdDev_def Histogram_Variance_def Histogram_Update_def
      NewHistogram_def Let_def float64_of_int_def f64_inf_def)

lemma Histogram_StdDev_is_sqrt_Variance:
  "count h \<noteq> 1 \<Longrightarrow> Histogram_StdDev h = f64_sqrt (Histogram_Variance h)"
proof -
  assume n1: "count h \<noteq> 1"
  have "sint (count h) \<noteq> 1"
    using n1 sint_eq_1 by blast
  then show ?thesis
    by (auto simp add: Histogram_StdDev_def Histogram_Variance_def)
qed

section \<open>Histogram: a run of updates\<close>

lemma Histogram_feed_snoc:
  "Histogram_feed ops (vs @ [v]) h = Histogram_Update ops v (Histogram_feed ops vs h)"
  by (simp add: Histogram_feed_def)

lemma Histogram_feed_Nil: "Histogram_feed ops [] h = h"
  by (simp add: Histogram_feed_def)

text \<open>The fields after one \<^verbatim>\<open>Update\<close>, one at a time.\<close>

lemma Update_count: "count (Histogram_Update ops v h) = count h + 1"
  by (simp add: Histogram_Update_def Let_def)

lemma Update_sum: "sum_h (Histogram_Update ops v h) = f64_add (sum_h h) v"
  by (simp add: Histogram_Update_def Let_def)

lemma Update_sample: "sample (Histogram_Update ops v h) = Sample_Update ops v (sample h)"
  by (simp add: Histogram_Update_def Let_def)

lemma Update_min:
  "min_h (Histogram_Update ops v h) =
     (if count h + 1 = 1 then v else if f64_lt v (min_h h) then v else min_h h)"
  by (simp add: Histogram_Update_def Let_def)

lemma Update_max:
  "max_h (Histogram_Update ops v h) =
     (if count h + 1 = 1 then v else if f64_gt v (max_h h) then v else max_h h)"
  by (simp add: Histogram_Update_def Let_def)

lemma Update_varianceM:
  "varianceM (Histogram_Update ops v h) =
     (if count h + 1 = 1 then v
      else f64_add (varianceM h)
             (f64_div (f64_sub v (varianceM h)) (float64_of_int (count h + 1))))"
  by (simp add: Histogram_Update_def Let_def)

lemma Update_varianceS:
  "varianceS (Histogram_Update ops v h) =
     (if count h + 1 = 1 then varianceS h
      else f64_add (varianceS h)
             (f64_mul (f64_sub v (varianceM h))
                (f64_sub v (varianceM (Histogram_Update ops v h)))))"
  by (simp add: Histogram_Update_def Let_def)


lemma float64_of_int_of_nat:
  "n < 2 ^ 63 \<Longrightarrow> float64_of_int (of_nat n) = Fin (real n)"
  by (simp add: float64_of_int_def sint_of_nat_small)

lemma mean_step_aux:
  fixes a x k :: real
  assumes "0 < k"
  shows "a + (x - a) / (k + 1) = (a * k + x) / (k + 1)"
proof -
  have k: "k + 1 \<noteq> 0" using assms by auto
  show ?thesis using k by (simp add: field_simps)
qed

lemma S_step_aux:
  fixes Q a x k :: real
  assumes "0 < k"
  shows "(Q - a * a * k) + (x - a) * (x - (a * k + x) / (k + 1))
         = (Q + x * x) - (a * k + x) * (a * k + x) / (k + 1)"
proof -
  have k: "k + 1 \<noteq> 0" using assms by auto
  show ?thesis using k by (simp add: field_simps)
qed

lemma welford_mean_step_real:
  fixes T x k :: real
  assumes "0 < k"
  shows "T / k + (x - T / k) / (k + 1) = (T + x) / (k + 1)"
  using mean_step_aux [OF assms, of "T / k" x] assms by simp

lemma welford_S_step_real:
  fixes Q T x k :: real
  assumes "0 < k"
  shows "(Q - T\<^sup>2 / k) + (x - T / k) * (x - (T + x) / (k + 1))
         = (Q + x * x) - (T + x)\<^sup>2 / (k + 1)"
proof -
  have "T / k * (T / k) * k = T\<^sup>2 / k"
    using assms by (simp add: power2_eq_square)
  then show ?thesis
    using S_step_aux [OF assms, of Q "T / k" x] assms by (simp add: power2_eq_square)
qed

lemma welford_incr_nonneg:
  fixes m x k :: real
  assumes "0 < k"
  shows "0 \<le> (x - m) * (x - (m + (x - m) / (k + 1)))"
proof -
  have k: "k + 1 \<noteq> 0" using assms by auto
  have "(x - m) * (x - (m + (x - m) / (k + 1))) = (x - m)\<^sup>2 * (k / (k + 1))"
    using k by (simp add: field_simps power2_eq_square)
  moreover have "0 \<le> (x - m)\<^sup>2 * (k / (k + 1))"
    using assms by simp
  ultimately show ?thesis by simp
qed
lemma welford_mean_step:
  fixes T x :: real and n :: nat
  assumes "0 < n"
  shows "T / real n + (x - T / real n) / real (Suc n) = (T + x) / real (Suc n)"
  using welford_mean_step_real [of "real n" T x] assms by (simp add: add.commute)

lemma welford_S_step:
  fixes Q T x :: real and n :: nat
  assumes "0 < n"
  shows "(Q - T\<^sup>2 / real n) + (x - T / real n) * (x - (T + x) / real (Suc n))
         = (Q + x * x) - (T + x)\<^sup>2 / real (Suc n)"
  using welford_S_step_real [of "real n" Q T x] assms by (simp add: add.commute)

lemma Update_min_Fin:
  "count h + 1 \<noteq> 1 \<Longrightarrow> min_h h = Fin a \<Longrightarrow>
   min_h (Histogram_Update ops (Fin x) h) = Fin (min x a)"
  by (auto simp add: Update_min min_def)

lemma Update_max_Fin:
  "count h + 1 \<noteq> 1 \<Longrightarrow> max_h h = Fin a \<Longrightarrow>
   max_h (Histogram_Update ops (Fin x) h) = Fin (max x a)"
  by (auto simp add: Update_max f64_gt_def max_def)

lemma feed_fields:
  "length rs < 2 ^ 63 \<Longrightarrow>
   count (Histogram_feed ops (map Fin rs) (NewHistogram s)) = of_nat (length rs) \<and>
   sum_h (Histogram_feed ops (map Fin rs) (NewHistogram s)) = Fin (sum_list rs) \<and>
   min_h (Histogram_feed ops (map Fin rs) (NewHistogram s))
     = Fin (if rs = [] then 0 else Min (set rs)) \<and>
   max_h (Histogram_feed ops (map Fin rs) (NewHistogram s))
     = Fin (if rs = [] then 0 else Max (set rs)) \<and>
   varianceM (Histogram_feed ops (map Fin rs) (NewHistogram s))
     = Fin (if rs = [] then 0 else sum_list rs / real (length rs)) \<and>
   varianceS (Histogram_feed ops (map Fin rs) (NewHistogram s))
     = Fin (sum_list (map (\<lambda>r. r * r) rs) - (sum_list rs)\<^sup>2 / real (length rs))"
proof (induction rs rule: rev_induct)
  case Nil
  show ?case by (simp add: Histogram_feed_Nil NewHistogram_def)
next
  case (snoc x rs)
  let ?h = "Histogram_feed ops (map Fin rs) (NewHistogram s)"
  let ?n = "length rs"
  have len: "Suc ?n < 2 ^ 63" using snoc.prems by simp
  then have len': "?n < 2 ^ 63" by simp
  note ih = snoc.IH [OF len']
  have cnt: "count ?h + 1 = of_nat (Suc ?n)" using ih by simp
  have first: "(count ?h + 1 = 1) = (rs = [])"
    unfolding cnt using word_of_nat_eq_1_iff [OF len] by simp
  have conv: "float64_of_int (count ?h + 1) = Fin (real (Suc ?n))"
    unfolding cnt by (rule float64_of_int_of_nat [OF len])
  have feed: "Histogram_feed ops (map Fin (rs @ [x])) (NewHistogram s)
      = Histogram_Update ops (Fin x) ?h"
    by (simp add: Histogram_feed_snoc)
  show ?case
  proof (cases "rs = []")
    case True
    then show ?thesis
      unfolding feed
      by (simp add: Update_count Update_sum Update_min Update_max Update_varianceM
          Update_varianceS Histogram_feed_Nil NewHistogram_def power2_eq_square)
  next
    case False
    then have pos: "0 < ?n" by simp
    have nf: "count ?h + 1 \<noteq> 1" using first False by simp
    have c1: "count (Histogram_Update ops (Fin x) ?h) = of_nat (length (rs @ [x]))"
      using cnt by (simp add: Update_count)
    have c2: "sum_h (Histogram_Update ops (Fin x) ?h) = Fin (sum_list (rs @ [x]))"
      using ih by (simp add: Update_sum)
    have mi: "Min (set (rs @ [x])) = min x (Min (set rs))"
      using False by simp
    have ma: "Max (set (rs @ [x])) = max x (Max (set rs))"
      using False by simp
    have "min_h ?h = Fin (Min (set rs))" using ih False by simp
    then have "min_h (Histogram_Update ops (Fin x) ?h) = Fin (min x (Min (set rs)))"
      using nf by (rule Update_min_Fin [rotated])
    then have c3: "min_h (Histogram_Update ops (Fin x) ?h) = Fin (Min (set (rs @ [x])))"
      using mi by simp
    have "max_h ?h = Fin (Max (set rs))" using ih False by simp
    then have "max_h (Histogram_Update ops (Fin x) ?h) = Fin (max x (Max (set rs)))"
      using nf by (rule Update_max_Fin [rotated])
    then have c4: "max_h (Histogram_Update ops (Fin x) ?h) = Fin (Max (set (rs @ [x])))"
      using ma by simp
    have m: "varianceM (Histogram_Update ops (Fin x) ?h)
        = Fin ((sum_list rs + x) / real (Suc ?n))"
      using ih nf False conv welford_mean_step [OF pos, of "sum_list rs" x]
      by (simp add: Update_varianceM f64_sub_def)
    have sv: "varianceS (Histogram_Update ops (Fin x) ?h)
        = Fin ((sum_list (map (\<lambda>r. r * r) rs) + x * x)
               - (sum_list rs + x)\<^sup>2 / real (Suc ?n))"
      using ih nf False m
        welford_S_step [OF pos, of "sum_list (map (\<lambda>r. r * r) rs)" "sum_list rs" x]
      by (simp add: Update_varianceS f64_sub_def)
    show ?thesis
      unfolding feed using c1 c2 c3 c4 m sv by simp
  qed
qed


lemma welford_incr_nonneg_mean:
  fixes T x k :: real
  assumes "0 < k"
  shows "0 \<le> (x - T / k) * (x - (T + x) / (k + 1))"
  using welford_incr_nonneg [OF assms, of x "T / k"] welford_mean_step_real [OF assms, of T x]
  by simp

lemma sum_sq_ge:
  fixes rs :: "real list"
  shows "0 \<le> sum_list (map (\<lambda>r. r * r) rs) - (sum_list rs)\<^sup>2 / real (length rs)"
proof (induction rs rule: rev_induct)
  case Nil
  show ?case by simp
next
  case (snoc x rs)
  show ?case
  proof (cases "rs = []")
    case True
    then show ?thesis by (simp add: power2_eq_square)
  next
    case False
    then have pos: "0 < real (length rs)" by simp
    have "(sum_list (map (\<lambda>r. r * r) rs) + x * x) - (sum_list rs + x)\<^sup>2 / (real (length rs) + 1)
        = (sum_list (map (\<lambda>r. r * r) rs) - (sum_list rs)\<^sup>2 / real (length rs))
          + (x - sum_list rs / real (length rs))
            * (x - (sum_list rs + x) / (real (length rs) + 1))"
      using welford_S_step_real [OF pos, of "sum_list (map (\<lambda>r. r * r) rs)" "sum_list rs" x]
      by simp
    moreover have "0 \<le> (x - sum_list rs / real (length rs))
            * (x - (sum_list rs + x) / (real (length rs) + 1))"
      by (rule welford_incr_nonneg_mean [OF pos])
    ultimately show ?thesis
      using snoc.IH by (simp add: add.commute)
  qed
qed

lemma feed_Variance:
  assumes "2 \<le> length rs" and "length rs < 2 ^ 63"
  shows "Histogram_Variance (Histogram_feed ops (map Fin rs) (NewHistogram s))
         = Fin ((sum_list (map (\<lambda>r. r * r) rs) - (sum_list rs)\<^sup>2 / real (length rs))
                / real (length rs - 1))"
proof -
  let ?h = "Histogram_feed ops (map Fin rs) (NewHistogram s)"
  note f = feed_fields [OF assms(2), of ops s]
  have c: "count ?h = of_nat (length rs)" using f by simp
  have s1: "sint (count ?h) = int (length rs)"
    unfolding c by (rule sint_of_nat_small [OF assms(2)])
  have "count ?h - 1 = of_nat (length rs - 1)"
    unfolding c using assms(1) by (simp add: of_nat_diff)
  moreover have "length rs - 1 < 2 ^ 63" using assms(2) by simp
  ultimately have conv: "float64_of_int (count ?h - 1) = Fin (real (length rs - 1))"
    by (simp add: float64_of_int_of_nat)
  have nz: "real (length rs - 1) \<noteq> 0" using assms(1) by simp
  show ?thesis
    unfolding Histogram_Variance_def conv
    using f s1 assms(1) nz by simp
qed

lemma feed_StdDev:
  assumes "2 \<le> length rs" and "length rs < 2 ^ 63"
  shows "Histogram_StdDev (Histogram_feed ops (map Fin rs) (NewHistogram s))
         = f64_sqrt (Histogram_Variance (Histogram_feed ops (map Fin rs) (NewHistogram s)))"
proof -
  let ?h = "Histogram_feed ops (map Fin rs) (NewHistogram s)"
  note f = feed_fields [OF assms(2), of ops s]
  have c: "count ?h = of_nat (length rs)" using f by simp
  have "length rs \<noteq> 1" using assms(1) by simp
  then have "count ?h \<noteq> 1"
    unfolding c using word_of_nat_eq_1_iff [OF assms(2)] by simp
  then show ?thesis by (rule Histogram_StdDev_is_sqrt_Variance)
qed

lemma sum_upto: "sum_list (map real [1..<Suc n]) = real n * (real n + 1) / 2"
  by (induction n) (simp_all add: field_simps)

lemma sum_sq_upto:
  "sum_list (map (\<lambda>r. r * r) (map real [1..<Suc n]))
     = real n * (real n + 1) * (2 * real n + 1) / 6"
  by (induction n) (simp_all add: field_simps)

lemma Min_upto: "0 < n \<Longrightarrow> Min (set (map real [1..<Suc n])) = 1"
  by (rule Min_eqI) auto

lemma Max_upto: "0 < n \<Longrightarrow> Max (set (map real [1..<Suc n])) = real n"
  by (rule Max_eqI) auto


lemma feed_accessors:
  assumes "rs \<noteq> []" and "length rs < 2 ^ 63"
  shows "sint (Histogram_Count (Histogram_feed ops (map Fin rs) (NewHistogram s)))
           = int (length rs) \<and>
         Histogram_Sum (Histogram_feed ops (map Fin rs) (NewHistogram s)) = Fin (sum_list rs) \<and>
         Histogram_Min (Histogram_feed ops (map Fin rs) (NewHistogram s)) = Fin (Min (set rs)) \<and>
         Histogram_Max (Histogram_feed ops (map Fin rs) (NewHistogram s)) = Fin (Max (set rs)) \<and>
         Histogram_Mean (Histogram_feed ops (map Fin rs) (NewHistogram s))
           = Fin (sum_list rs / real (length rs))"
proof -
  let ?h = "Histogram_feed ops (map Fin rs) (NewHistogram s)"
  note f = feed_fields [OF assms(2), of ops s]
  have c: "count ?h = of_nat (length rs)" using f by simp
  have s1: "sint (count ?h) = int (length rs)"
    unfolding c by (rule sint_of_nat_small [OF assms(2)])
  have nz: "count ?h \<noteq> 0"
    unfolding c using word_of_nat_eq_0_iff [OF assms(2)] assms(1) by simp
  have conv: "float64_of_int (count ?h) = Fin (real (length rs))"
    unfolding c by (rule float64_of_int_of_nat [OF assms(2)])
  have pos: "0 < sint (count ?h)" using s1 assms(1) by simp
  have "Histogram_Mean ?h = Fin (sum_list rs / real (length rs))"
    unfolding Histogram_Mean_def conv using pos f assms(1) by simp
  then show ?thesis
    using f s1 nz assms(1)
    by (simp add: Histogram_Count_def Histogram_Sum_def Histogram_Min_def Histogram_Max_def)
qed

lemma feed_welford:
  assumes "Suc (length rs) < 2 ^ 63"
  shows "varianceM (Histogram_feed ops (map Fin (rs @ [x])) (NewHistogram s))
           = f64_add (varianceM (Histogram_feed ops (map Fin rs) (NewHistogram s)))
               (f64_div
                  (f64_sub (Fin x) (varianceM (Histogram_feed ops (map Fin rs) (NewHistogram s))))
                  (float64_of_int
                     (count (Histogram_feed ops (map Fin (rs @ [x])) (NewHistogram s))))) \<and>
         varianceS (Histogram_feed ops (map Fin (rs @ [x])) (NewHistogram s))
           = f64_add (varianceS (Histogram_feed ops (map Fin rs) (NewHistogram s)))
               (f64_mul
                  (f64_sub (Fin x) (varianceM (Histogram_feed ops (map Fin rs) (NewHistogram s))))
                  (f64_sub (Fin x)
                     (varianceM (Histogram_feed ops (map Fin (rs @ [x])) (NewHistogram s)))))"
proof -
  let ?h = "Histogram_feed ops (map Fin rs) (NewHistogram s)"
  have len: "length rs < 2 ^ 63" using assms by simp
  note f = feed_fields [OF len, of ops s]
  have feed: "Histogram_feed ops (map Fin (rs @ [x])) (NewHistogram s)
      = Histogram_Update ops (Fin x) ?h"
    by (simp add: Histogram_feed_snoc)
  have cnt: "count ?h + 1 = of_nat (Suc (length rs))" using f by simp
  have first: "(count ?h + 1 = 1) = (rs = [])"
    unfolding cnt using word_of_nat_eq_1_iff [OF assms] by simp
  show ?thesis
  proof (cases "rs = []")
    case True
    then show ?thesis
      unfolding feed
      by (simp add: Update_varianceM Update_varianceS Update_count Histogram_feed_Nil
          NewHistogram_def f64_sub_def float64_of_int_def)
  next
    case False
    then have "count ?h + 1 \<noteq> 1" using first by simp
    then show ?thesis
      unfolding feed by (simp add: Update_varianceM Update_varianceS Update_count)
  qed
qed

text \<open>
  C8. The values \<open>rs @ [x]\<close> (any non-empty sequence of finite values, fewer than \<open>2^63\<close>
  of them) are fed to a fresh Histogram. Afterwards \<^verbatim>\<open>Count\<close> is their number, \<^verbatim>\<open>Sum\<close>
  their sum, \<^verbatim>\<open>Min\<close> and \<^verbatim>\<open>Max\<close> their least and greatest, \<^verbatim>\<open>Mean\<close> the sum over
  the number. The first observation sets both \<^verbatim>\<open>Min\<close> and \<^verbatim>\<open>Max\<close> to itself. The last
  \<^verbatim>\<open>Update\<close> of the run moves the Welford accumulators by
  \<open>M' = M + (value - M) / count\<close> and \<open>S' = S + (value - M) * (value - M')\<close>. Fed
  1..100, the Histogram has \<^verbatim>\<open>Count\<close> 100, \<^verbatim>\<open>Mean\<close> 50.5, \<^verbatim>\<open>Min\<close> 1, \<^verbatim>\<open>Max\<close> 100 and as
  \<^verbatim>\<open>Variance\<close> the sample variance \<open>n (n + 1) / 12\<close> of 1..n at \<open>n = 100\<close>.
\<close>

theorem Histogram_after_updates:
  assumes "Suc (length rs) < 2 ^ 63"
  shows
    "sint (Histogram_Count (Histogram_feed ops (map Fin (rs @ [x])) (NewHistogram s)))
       = int (length (rs @ [x])) \<and>
     Histogram_Sum (Histogram_feed ops (map Fin (rs @ [x])) (NewHistogram s))
       = Fin (sum_list (rs @ [x])) \<and>
     Histogram_Min (Histogram_feed ops (map Fin (rs @ [x])) (NewHistogram s))
       = Fin (Min (set (rs @ [x]))) \<and>
     Histogram_Max (Histogram_feed ops (map Fin (rs @ [x])) (NewHistogram s))
       = Fin (Max (set (rs @ [x]))) \<and>
     Histogram_Mean (Histogram_feed ops (map Fin (rs @ [x])) (NewHistogram s))
       = Fin (sum_list (rs @ [x]) / real (length (rs @ [x]))) \<and>
     Histogram_Min (Histogram_Update ops (Fin x) (NewHistogram s)) = Fin x \<and>
     Histogram_Max (Histogram_Update ops (Fin x) (NewHistogram s)) = Fin x \<and>
     Histogram_Update ops (Fin x) (Histogram_feed ops (map Fin rs) (NewHistogram s))
       = Histogram_feed ops (map Fin (rs @ [x])) (NewHistogram s) \<and>
     varianceM (Histogram_feed ops (map Fin (rs @ [x])) (NewHistogram s))
       = f64_add (varianceM (Histogram_feed ops (map Fin rs) (NewHistogram s)))
           (f64_div
              (f64_sub (Fin x) (varianceM (Histogram_feed ops (map Fin rs) (NewHistogram s))))
              (float64_of_int
                 (count (Histogram_feed ops (map Fin (rs @ [x])) (NewHistogram s))))) \<and>
     varianceS (Histogram_feed ops (map Fin (rs @ [x])) (NewHistogram s))
       = f64_add (varianceS (Histogram_feed ops (map Fin rs) (NewHistogram s)))
           (f64_mul
              (f64_sub (Fin x) (varianceM (Histogram_feed ops (map Fin rs) (NewHistogram s))))
              (f64_sub (Fin x)
                 (varianceM (Histogram_feed ops (map Fin (rs @ [x])) (NewHistogram s))))) \<and>
     sint (Histogram_Count (Histogram_feed ops (map Fin (map real [1..<101])) (NewHistogram s)))
       = 100 \<and>
     Histogram_Mean (Histogram_feed ops (map Fin (map real [1..<101])) (NewHistogram s))
       = Fin (101 / 2) \<and>
     Histogram_Min (Histogram_feed ops (map Fin (map real [1..<101])) (NewHistogram s)) = Fin 1 \<and>
     Histogram_Max (Histogram_feed ops (map Fin (map real [1..<101])) (NewHistogram s))
       = Fin 100 \<and>
     Histogram_Variance (Histogram_feed ops (map Fin (map real [1..<101])) (NewHistogram s))
       = Fin (100 * 101 / 12)"
proof -
  have ne: "rs @ [x] \<noteq> []" by simp
  have len: "length (rs @ [x]) < 2 ^ 63" using assms by simp
  note a = feed_accessors [OF ne len, of ops s]
  note w = feed_welford [OF assms, of ops x s]
  have one: "Histogram_Min (Histogram_Update ops (Fin x) (NewHistogram s)) = Fin x \<and>
      Histogram_Max (Histogram_Update ops (Fin x) (NewHistogram s)) = Fin x"
    by (simp add: Histogram_Min_def Histogram_Max_def Update_count Update_min Update_max
        NewHistogram_def)
  have snoc: "Histogram_Update ops (Fin x) (Histogram_feed ops (map Fin rs) (NewHistogram s))
       = Histogram_feed ops (map Fin (rs @ [x])) (NewHistogram s)"
    by (simp add: Histogram_feed_snoc)
  have ne100: "map real [1..<101] \<noteq> []" by simp
  have len100: "length (map real [1..<101]) < 2 ^ 63" by simp
  have two100: "2 \<le> length (map real [1..<101])" by simp
  have T: "sum_list (map real [1..<101]) = 5050"
    using sum_upto [of 100] by simp
  have Q: "sum_list (map (\<lambda>r. r * r) (map real [1..<101])) = 338350"
    using sum_sq_upto [of 100] by simp
  have mn: "Min (set (map real [1..<101])) = 1"
    using Min_upto [of 100] by simp
  have mx: "Max (set (map real [1..<101])) = 100"
    using Max_upto [of 100] by simp
  have L: "length (map real [1..<101]) = 100" by simp
  note a100 = feed_accessors [OF ne100 len100, of ops s, unfolded T mn mx L]
  note v100 = feed_Variance [OF two100 len100, of ops s, unfolded T Q L]
  have h1: "sint (Histogram_Count (Histogram_feed ops (map Fin (map real [1..<101]))
              (NewHistogram s))) = 100"
    using a100 by simp
  have h2: "Histogram_Mean (Histogram_feed ops (map Fin (map real [1..<101])) (NewHistogram s))
       = Fin (101 / 2)"
    using a100 by simp
  have h3: "Histogram_Min (Histogram_feed ops (map Fin (map real [1..<101])) (NewHistogram s))
       = Fin 1"
    using a100 by simp
  have h4: "Histogram_Max (Histogram_feed ops (map Fin (map real [1..<101])) (NewHistogram s))
       = Fin 100"
    using a100 by simp
  have h5: "Histogram_Variance (Histogram_feed ops (map Fin (map real [1..<101]))
              (NewHistogram s)) = Fin (100 * 101 / 12)"
    unfolding v100 by simp
  show ?thesis
    using a w one snoc h1 h2 h3 h4 h5 by blast
qed


text \<open>C8 at the values 1 and 3.\<close>

theorem Histogram_after_updates_witness:
  "Suc (length [1::real]) < 2 ^ 63 \<and>
   sint (Histogram_Count (Histogram_feed (UniformSample 4 (\<lambda>i. 0)) (map Fin ([1] @ [3]))
      (NewHistogram NewUniformSample))) = 2 \<and>
   Histogram_Sum (Histogram_feed (UniformSample 4 (\<lambda>i. 0)) (map Fin ([1] @ [3]))
      (NewHistogram NewUniformSample)) = Fin 4 \<and>
   Histogram_Min (Histogram_feed (UniformSample 4 (\<lambda>i. 0)) (map Fin ([1] @ [3]))
      (NewHistogram NewUniformSample)) = Fin 1 \<and>
   Histogram_Max (Histogram_feed (UniformSample 4 (\<lambda>i. 0)) (map Fin ([1] @ [3]))
      (NewHistogram NewUniformSample)) = Fin 3 \<and>
   Histogram_Mean (Histogram_feed (UniformSample 4 (\<lambda>i. 0)) (map Fin ([1] @ [3]))
      (NewHistogram NewUniformSample)) = Fin 2"
proof -
  have h: "Suc (length [1::real]) < 2 ^ 63" by simp
  show ?thesis
    using h Histogram_after_updates [OF h, of "UniformSample 4 (\<lambda>i. 0)" 3 NewUniformSample]
    by simp
qed

text \<open>
  C10. After any run of \<^verbatim>\<open>Update\<close> calls with finite values (fewer than \<open>2^63\<close> of
  them) on a fresh Histogram, the accumulator S is a finite number that is not negative;
  from two values on, \<^verbatim>\<open>Variance\<close> and \<^verbatim>\<open>StdDev\<close> are finite and not negative, and
  \<^verbatim>\<open>StdDev\<close> is the square root of \<^verbatim>\<open>Variance\<close>.
\<close>

theorem Histogram_varianceS_nonneg:
  assumes "length rs < 2 ^ 63"
  shows "(\<exists>sv. varianceS (Histogram_feed ops (map Fin rs) (NewHistogram s)) = Fin sv \<and> 0 \<le> sv) \<and>
         (2 \<le> length rs \<longrightarrow>
            (\<exists>v. Histogram_Variance (Histogram_feed ops (map Fin rs) (NewHistogram s)) = Fin v \<and>
                 Histogram_StdDev (Histogram_feed ops (map Fin rs) (NewHistogram s))
                   = Fin (sqrt v) \<and>
                 0 \<le> v \<and> 0 \<le> sqrt v))"
proof -
  let ?h = "Histogram_feed ops (map Fin rs) (NewHistogram s)"
  let ?S = "sum_list (map (\<lambda>r. r * r) rs) - (sum_list rs)\<^sup>2 / real (length rs)"
  have S0: "0 \<le> ?S" by (rule sum_sq_ge)
  have "varianceS ?h = Fin ?S" using feed_fields [OF assms, of ops s] by simp
  then have first: "\<exists>sv. varianceS ?h = Fin sv \<and> 0 \<le> sv" using S0 by blast
  have second: "\<exists>v. Histogram_Variance ?h = Fin v \<and> Histogram_StdDev ?h = Fin (sqrt v) \<and>
      0 \<le> v \<and> 0 \<le> sqrt v" if two: "2 \<le> length rs"
  proof -
    let ?v = "?S / real (length rs - 1)"
    have v: "Histogram_Variance ?h = Fin ?v" by (rule feed_Variance [OF two assms])
    have v0: "0 \<le> ?v" using S0 by simp
    have "Histogram_StdDev ?h = f64_sqrt (Fin ?v)"
      using feed_StdDev [OF two assms, of ops s] v by simp
    then have "Histogram_StdDev ?h = Fin (sqrt ?v)" using v0 by simp
    then show ?thesis using v v0 by (metis real_sqrt_ge_zero)
  qed
  show ?thesis using first second by blast
qed

text \<open>C10 at the values 1 and 3.\<close>

theorem Histogram_varianceS_nonneg_witness:
  "length [1::real, 3] < 2 ^ 63 \<and> 2 \<le> length [1::real, 3] \<and>
   (\<exists>sv. varianceS (Histogram_feed (UniformSample 4 (\<lambda>i. 0)) (map Fin [1, 3])
      (NewHistogram NewUniformSample)) = Fin sv \<and> 0 \<le> sv) \<and>
   (\<exists>v. Histogram_Variance (Histogram_feed (UniformSample 4 (\<lambda>i. 0)) (map Fin [1, 3])
          (NewHistogram NewUniformSample)) = Fin v \<and>
        Histogram_StdDev (Histogram_feed (UniformSample 4 (\<lambda>i. 0)) (map Fin [1, 3])
          (NewHistogram NewUniformSample)) = Fin (sqrt v) \<and> 0 \<le> v \<and> 0 \<le> sqrt v)"
proof -
  have h: "length [1::real, 3] < 2 ^ 63" by simp
  have t: "2 \<le> length [1::real, 3]" by simp
  show ?thesis
    using h t Histogram_varianceS_nonneg [OF h, of "UniformSample 4 (\<lambda>i. 0)" NewUniformSample]
    by blast
qed

section \<open>Histogram: percentiles\<close>

lemma sort_insert_length: "length (sort_insert x ys) = Suc (length ys)"
  by (induction ys) simp_all

lemma sort_Float64Slice_length: "length (sort_Float64Slice xs) = length xs"
  by (induction xs) (simp_all add: sort_Float64Slice_def sort_insert_length)

lemma sort_insert_Fin: "sort_insert (Fin x) (map Fin ys) = map Fin (insort x ys)"
  by (induction ys) (auto simp add: Float64Slice_Less_def)

lemma sort_Float64Slice_Fin: "sort_Float64Slice (map Fin rs) = map Fin (sort rs)"
proof (induction rs)
  case Nil
  show ?case by (simp add: sort_Float64Slice_def)
next
  case (Cons r rs)
  have "sort_Float64Slice (map Fin (r # rs)) = sort_insert (Fin r) (sort_Float64Slice (map Fin rs))"
    by (simp add: sort_Float64Slice_def)
  also have "\<dots> = map Fin (insort r (sort rs))"
    unfolding Cons.IH by (rule sort_insert_Fin)
  also have "insort r (sort rs) = sort (r # rs)"
    by (simp add: sort_key_def)
  finally show ?case .
qed

lemma sorted_nth0_Min:
  fixes xs :: "real list"
  assumes "sorted xs" and "xs \<noteq> []"
  shows "xs ! 0 = Min (set xs)"
proof -
  have "\<forall>y\<in>set xs. xs ! 0 \<le> y"
    using assms by (cases xs) auto
  moreover have "xs ! 0 \<in> set xs" using assms(2) by simp
  ultimately have "Min (set xs) = xs ! 0"
    by (intro Min_eqI) auto
  then show ?thesis by simp
qed

lemma sorted_last_Max:
  fixes xs :: "real list"
  assumes "sorted xs" and "xs \<noteq> []"
  shows "xs ! (length xs - 1) = Max (set xs)"
proof -
  have "y \<le> xs ! (length xs - 1)" if yin: "y \<in> set xs" for y
  proof -
    obtain i where i: "i < length xs" "xs ! i = y"
      using yin unfolding in_set_conv_nth by blast
    then have "i \<le> length xs - 1" by simp
    have j: "length xs - 1 < length xs" using assms(2) by simp
    have "xs ! i \<le> xs ! (length xs - 1)"
      using assms(1) \<open>i \<le> length xs - 1\<close> j by (rule sorted_nth_mono)
    then show ?thesis using i by simp
  qed
  moreover have "xs ! (length xs - 1) \<in> set xs" using assms(2) by simp
  ultimately have "Max (set xs) = xs ! (length xs - 1)"
    by (intro Max_eqI) auto
  then show ?thesis by simp
qed

lemma index_in_range: "0 \<le> i \<Longrightarrow> i < int (length xs) \<Longrightarrow> index xs i = Inr (xs ! nat i)"
  by (simp add: index_def)

lemma score_total:
  assumes "values \<noteq> []"
  shows "\<exists>v. score unrep values p = Inr v"
proof -
  let ?n = "int (length values)"
  let ?ipos = "int_of_float64 unrep (f64_mul p (Fin (real (length values + 1))))"
  have n: "0 < ?n" using assms by simp
  show ?thesis
  proof (cases "?ipos < 1")
    case True
    then show ?thesis using n by (simp add: score_def Let_def index_def)
  next
    case False
    show ?thesis
    proof (cases "?n \<le> ?ipos")
      case True
      then show ?thesis using False n by (simp add: score_def Let_def index_def)
    next
      case ge: False
      then show ?thesis using False n by (simp add: score_def Let_def index_def)
    qed
  qed
qed

lemma score_empty: "score unrep [] p = Inl IndexOutOfRange"
  by (simp add: score_def Let_def index_def)

lemma Percentiles_loop_scores:
  "\<forall>p\<in>set ps. score unrep values p = Inr (f p) \<Longrightarrow> i + length ps \<le> length scores \<Longrightarrow>
   Percentiles_loop unrep values i ps scores
     = Inr (take i scores @ map f ps @ drop (i + length ps) scores)"
proof (induction ps arbitrary: i scores)
  case Nil
  show ?case by simp
next
  case (Cons p ps)
  have i: "i < length scores" using Cons.prems(2) by simp
  have sc: "score unrep values p = Inr (f p)" using Cons.prems(1) by simp
  have rest: "\<forall>q\<in>set ps. score unrep values q = Inr (f q)" using Cons.prems(1) by simp
  have len: "Suc i + length ps \<le> length (scores[i := f p])" using Cons.prems(2) by simp
  have "Percentiles_loop unrep values i (p # ps) scores
      = Percentiles_loop unrep values (Suc i) ps (scores[i := f p])"
    using sc by simp
  also have "\<dots> = Inr (take (Suc i) (scores[i := f p]) @ map f ps
                      @ drop (Suc i + length ps) (scores[i := f p]))"
    by (rule Cons.IH [OF rest len])
  also have "take (Suc i) (scores[i := f p]) = take i scores @ [f p]"
    using i by (simp add: take_Suc_conv_app_nth)
  also have "drop (Suc i + length ps) (scores[i := f p]) = drop (i + length (p # ps)) scores"
    by simp
  finally show ?case by simp
qed

lemma Percentiles_scores:
  assumes "count h \<noteq> 0"
    and "\<forall>p\<in>set ps. score unrep (sort_Float64Slice (Sample_Values ops (sample h))) p = Inr (f p)"
  shows "Histogram_Percentiles ops unrep ps h = Inr (map f ps)"
  using assms(1) Percentiles_loop_scores [OF assms(2), of 0 "replicate (length ps) (Fin 0)"]
  by (simp add: Histogram_Percentiles_def)

lemma Percentiles_empty_count:
  "count h = 0 \<Longrightarrow> Histogram_Percentiles ops unrep ps h = Inr (replicate (length ps) (Fin 0))"
  by (simp add: Histogram_Percentiles_def)


lemma int_of_float64_Fin:
  assumes "\<bar>r\<bar> < 2 ^ 63"
  shows "int_of_float64 unrep (Fin r) = (if 0 \<le> r then \<lfloor>r\<rfloor> else \<lceil>r\<rceil>)"
proof -
  let ?t = "if 0 \<le> r then \<lfloor>r\<rfloor> else \<lceil>r\<rceil>"
  have "- (2 ^ 63) \<le> ?t \<and> ?t < 2 ^ 63"
  proof (cases "0 \<le> r")
    case True
    then have "0 \<le> \<lfloor>r\<rfloor>" by simp
    moreover have "r < 2 ^ 63" using assms by simp
    then have "\<lfloor>r\<rfloor> < 2 ^ 63" by (simp add: floor_less_iff)
    ultimately show ?thesis using True by simp
  next
    case False
    then have "\<lceil>r\<rceil> \<le> 0" by (simp add: ceiling_le_iff)
    moreover have "- (2 ^ 63) < r" using assms by simp
    then have "- (2 ^ 63) \<le> \<lceil>r\<rceil>" by (simp add: le_ceiling_iff)
    ultimately show ?thesis using False by simp
  qed
  then show ?thesis by (simp add: int_of_float64_def Let_def)
qed

lemma score_Fin:
  assumes ne: "xs \<noteq> []" and rng: "\<bar>q * real (length xs + 1)\<bar> < 2 ^ 63"
  shows "score unrep (map Fin xs) (Fin q) =
     Inr (Fin (if q * real (length xs + 1) < 1 then xs ! 0
               else if real (length xs) \<le> q * real (length xs + 1) then xs ! (length xs - 1)
               else xs ! (nat \<lfloor>q * real (length xs + 1)\<rfloor> - 1)
                    + (q * real (length xs + 1) - real_of_int \<lfloor>q * real (length xs + 1)\<rfloor>)
                      * (xs ! (nat \<lfloor>q * real (length xs + 1)\<rfloor> + 1 - 1)
                         - xs ! (nat \<lfloor>q * real (length xs + 1)\<rfloor> - 1))))"
proof -
  let ?n = "length xs"
  let ?pos = "q * real (?n + 1)"
  let ?ipos = "int_of_float64 unrep (Fin ?pos)"
  have n: "0 < ?n" using ne by simp
  have ip: "?ipos = (if 0 \<le> ?pos then \<lfloor>?pos\<rfloor> else \<lceil>?pos\<rceil>)"
    by (rule int_of_float64_Fin [OF rng])
  have unf: "score unrep (map Fin xs) (Fin q) =
      (if ?ipos < 1 then index (map Fin xs) 0
       else if int ?n \<le> ?ipos then index (map Fin xs) (int ?n - 1)
       else (case index (map Fin xs) (?ipos - 1) of
               Inl e \<Rightarrow> Inl e
             | Inr lower \<Rightarrow>
                 (case index (map Fin xs) ?ipos of
                    Inl e \<Rightarrow> Inl e
                  | Inr upper \<Rightarrow>
                      Inr (f64_add lower
                             (f64_mul (f64_sub (Fin ?pos) (f64_floor (Fin ?pos)))
                                (f64_sub upper lower))))))"
    unfolding score_def Let_def f64_mul.simps(1) length_map by (rule refl)
  show ?thesis
  proof (cases "?pos < 1")
    case True
    then have "?ipos < 1" unfolding ip by (auto simp add: floor_less_iff ceiling_less_iff)
    then show ?thesis unfolding unf using True n by (simp add: index_def)
  next
    case False
    then have p1: "1 \<le> ?pos" by simp
    then have ipf: "?ipos = \<lfloor>?pos\<rfloor>" unfolding ip by simp
    have i1: "\<not> ?ipos < 1" unfolding ipf using p1 by (simp add: le_floor_iff)
    show ?thesis
    proof (cases "real ?n \<le> ?pos")
      case True
      then have "int ?n \<le> ?ipos" unfolding ipf by (simp add: le_floor_iff)
      moreover have "nat (int ?n - 1) = ?n - 1" by simp
      then have "index (map Fin xs) (int ?n - 1) = Inr (Fin (xs ! (?n - 1)))"
        using n by (simp add: index_def)
      ultimately show ?thesis unfolding unf using i1 False True by simp
    next
      case lt: False
      then have il: "\<not> int ?n \<le> ?ipos" unfolding ipf by (simp add: le_floor_iff)
      have f1: "1 \<le> \<lfloor>?pos\<rfloor>" using p1 by (simp add: le_floor_iff)
      have fn: "\<lfloor>?pos\<rfloor> < int ?n" using il unfolding ipf by simp
      have k: "nat \<lfloor>?pos\<rfloor> < ?n" using f1 fn by linarith
      have k': "nat (\<lfloor>?pos\<rfloor> - 1) = nat \<lfloor>?pos\<rfloor> - 1" using f1 by linarith
      have k'': "nat \<lfloor>?pos\<rfloor> - 1 < ?n" using k by linarith
      have "index (map Fin xs) (\<lfloor>?pos\<rfloor> - 1) = Inr (map Fin xs ! (nat \<lfloor>?pos\<rfloor> - 1))"
        using f1 fn k' by (simp add: index_def)
      then have lo: "index (map Fin xs) (?ipos - 1) = Inr (Fin (xs ! (nat \<lfloor>?pos\<rfloor> - 1)))"
        unfolding ipf using nth_map [OF k'', of Fin] by simp
      have "index (map Fin xs) \<lfloor>?pos\<rfloor> = Inr (map Fin xs ! nat \<lfloor>?pos\<rfloor>)"
        using f1 fn by (simp add: index_def)
      then have up: "index (map Fin xs) ?ipos = Inr (Fin (xs ! (nat \<lfloor>?pos\<rfloor> + 1 - 1)))"
        unfolding ipf using nth_map [OF k, of Fin] by simp
      show ?thesis
        unfolding unf lo up using i1 il False lt by (simp add: f64_sub_def)
    qed
  qed
qed

lemma score_Fin_sorted:
  assumes ne: "rs \<noteq> []" and rng: "\<bar>q * real (length rs + 1)\<bar> < 2 ^ 63"
  shows "score unrep (sort_Float64Slice (map Fin rs)) (Fin q) = Inr (Fin (percentile_spec rs q))"
proof -
  have ne': "sort rs \<noteq> []" using ne by (metis length_sort length_0_conv)
  have rng': "\<bar>q * real (length (sort rs) + 1)\<bar> < 2 ^ 63" using rng by simp
  have mn: "sort rs ! 0 = Min (set rs)"
    using sorted_nth0_Min [of "sort rs"] ne' by simp
  have mx: "sort rs ! (length rs - 1) = Max (set rs)"
    using sorted_last_Max [of "sort rs"] ne' by simp
  show ?thesis
    unfolding sort_Float64Slice_Fin
    using score_Fin [OF ne' rng', of unrep] mn mx
    by (simp add: percentile_spec_def Let_def)
qed

text \<open>
  On an empty snapshot the first score indexes out of range. The UniformSample of the
  specification, of capacity at least one, has a non-empty snapshot after any update.
\<close>

lemma Percentiles_empty_snapshot_panics:
  "count h \<noteq> 0 \<Longrightarrow> Sample_Values ops (sample h) = [] \<Longrightarrow>
   Histogram_Percentiles ops unrep (p # ps) h = Inl IndexOutOfRange"
  by (simp add: Histogram_Percentiles_def sort_Float64Slice_def score_empty)

lemma feed_sample:
  "sample (Histogram_feed ops vs h) = foldl (\<lambda>s v. Sample_Update ops v s) (sample h) vs"
  by (induction vs rule: rev_induct) (simp_all add: Histogram_feed_Nil Histogram_feed_snoc Update_sample)

lemma UniformSample_length:
  "length (snd (foldl (\<lambda>s v. UniformSample_Update N rand v s) (0, []) vs)) = min (length vs) N \<and>
   fst (foldl (\<lambda>s v. UniformSample_Update N rand v s) (0, []) vs) = length vs"
  by (induction vs rule: rev_induct) (auto simp add: UniformSample_Update_def Let_def)

lemma UniformSample_snapshot_nonempty:
  assumes "0 < N" and "vs \<noteq> []"
  shows "Sample_Values (UniformSample N rand)
           (sample (Histogram_feed (UniformSample N rand) vs (NewHistogram NewUniformSample))) \<noteq> []"
proof
  let ?X = "Sample_Values (UniformSample N rand)
           (sample (Histogram_feed (UniformSample N rand) vs (NewHistogram NewUniformSample)))"
  assume "?X = []"
  then have z: "length ?X = 0" by simp
  have len: "length ?X = min (length vs) N"
    using UniformSample_length [of N rand vs]
    by (simp add: feed_sample UniformSample_def NewHistogram_def NewUniformSample_def)
  have "length vs \<noteq> 0" using assms(2) by simp
  then have "min (length vs) N \<noteq> 0" using assms(1) by (simp add: min_def)
  then show False using z len by simp
qed

lemma percentile_spec_0: "rs \<noteq> [] \<Longrightarrow> percentile_spec rs 0 = Min (set rs)"
  by (simp add: percentile_spec_def)

lemma percentile_spec_1: "percentile_spec rs 1 = Max (set rs)"
  by (simp add: percentile_spec_def Let_def)

text \<open>
  C5. The Histogram has a count other than zero and a non-empty snapshot \<open>rs\<close> of finite
  values; the requested percentiles \<open>qs\<close> are finite and each \<open>pos = q * (n + 1)\<close> lies
  within the range of Go's \<^verbatim>\<open>int\<close>, as it does for every \<open>q\<close> between 0 and 1. Then
  \<^verbatim>\<open>Percentiles\<close> returns, for each \<open>q\<close> in order, the percentile of the specification:
  the minimum for \<open>pos < 1\<close>, the maximum for \<open>pos \<ge> n\<close>, the interpolation between the
  ranks \<open>floor(pos)\<close> and \<open>floor(pos) + 1\<close> otherwise. \<^verbatim>\<open>Percentiles([0.0])\<close> is the
  minimum of the snapshot and \<^verbatim>\<open>Percentiles([1.0])\<close> its maximum.
\<close>

theorem Histogram_Percentiles_spec:
  assumes c: "count h \<noteq> 0"
    and v: "Sample_Values ops (sample h) = map Fin rs"
    and ne: "rs \<noteq> []"
    and len: "Suc (length rs) < 2 ^ 63"
    and rng: "\<forall>q\<in>set qs. \<bar>q * real (length rs + 1)\<bar> < 2 ^ 63"
  shows "Histogram_Percentiles ops unrep (map Fin qs) h
           = Inr (map (\<lambda>q. Fin (percentile_spec rs q)) qs) \<and>
         Histogram_Percentiles ops unrep [Fin 0] h = Inr [Fin (Min (set rs))] \<and>
         Histogram_Percentiles ops unrep [Fin 1] h = Inr [Fin (Max (set rs))]"
proof -
  let ?f = "\<lambda>p. case p of Fin q \<Rightarrow> Fin (percentile_spec rs q) | _ \<Rightarrow> NaN"
  have sc: "score unrep (sort_Float64Slice (Sample_Values ops (sample h))) (Fin q) = Inr (?f (Fin q))"
    if "\<bar>q * real (length rs + 1)\<bar> < 2 ^ 63" for q
    unfolding v using score_Fin_sorted [OF ne that, of unrep] by simp
  have all: "\<forall>p\<in>set (map Fin qs).
      score unrep (sort_Float64Slice (Sample_Values ops (sample h))) p = Inr (?f p)"
    using sc rng by auto
  have general: "Histogram_Percentiles ops unrep (map Fin qs) h
      = Inr (map (\<lambda>q. Fin (percentile_spec rs q)) qs)"
    using Percentiles_scores [OF c all] by (simp add: comp_def)
  have r0: "\<bar>0 * real (length rs + 1)\<bar> < (2::real) ^ 63" by simp
  have "real (Suc (length rs)) < 2 ^ 63"
    using len by (metis of_nat_less_numeral_power_cancel_iff)
  then have r1: "\<bar>1 * real (length rs + 1)\<bar> < 2 ^ 63" by simp
  have a0: "\<forall>p\<in>set [Fin 0].
      score unrep (sort_Float64Slice (Sample_Values ops (sample h))) p = Inr (?f p)"
    using sc [OF r0] by simp
  have a1: "\<forall>p\<in>set [Fin 1].
      score unrep (sort_Float64Slice (Sample_Values ops (sample h))) p = Inr (?f p)"
    using sc [OF r1] by simp
  have zero: "Histogram_Percentiles ops unrep [Fin 0] h = Inr [Fin (Min (set rs))]"
    using Percentiles_scores [OF c a0] ne by (simp add: percentile_spec_0)
  have one: "Histogram_Percentiles ops unrep [Fin 1] h = Inr [Fin (Max (set rs))]"
    using Percentiles_scores [OF c a1] by (simp add: percentile_spec_1)
  show ?thesis using general zero one by simp
qed

lemma example_histogram_state:
  "count (Histogram_feed (UniformSample 4 (\<lambda>i. 0)) (map Fin [5, 7]) (NewHistogram NewUniformSample)) = 2 \<and>
   Sample_Values (UniformSample 4 (\<lambda>i. 0))
     (sample (Histogram_feed (UniformSample 4 (\<lambda>i. 0)) (map Fin [5, 7]) (NewHistogram NewUniformSample)))
     = map Fin [5, 7]"
  by (simp add: Histogram_feed_def Histogram_Update_def NewHistogram_def NewUniformSample_def
      UniformSample_def UniformSample_Update_def Let_def)

lemma percentile_spec_example: "percentile_spec [5, 7] (1 / 2) = 6"
  by (simp add: percentile_spec_def Let_def)


text \<open>
  C5 on the snapshot 5, 7: the median interpolates to 6, and the percentiles 0 and 1 are
  5 and 7.
\<close>

theorem Histogram_Percentiles_spec_witness:
  "Histogram_Percentiles (UniformSample 4 (\<lambda>i. 0)) (\<lambda>x. 0) (map Fin [1 / 2])
     (Histogram_feed (UniformSample 4 (\<lambda>i. 0)) (map Fin [5, 7]) (NewHistogram NewUniformSample))
     = Inr [Fin 6] \<and>
   Histogram_Percentiles (UniformSample 4 (\<lambda>i. 0)) (\<lambda>x. 0) [Fin 0]
     (Histogram_feed (UniformSample 4 (\<lambda>i. 0)) (map Fin [5, 7]) (NewHistogram NewUniformSample))
     = Inr [Fin 5] \<and>
   Histogram_Percentiles (UniformSample 4 (\<lambda>i. 0)) (\<lambda>x. 0) [Fin 1]
     (Histogram_feed (UniformSample 4 (\<lambda>i. 0)) (map Fin [5, 7]) (NewHistogram NewUniformSample))
     = Inr [Fin 7]"
proof -
  let ?ops = "UniformSample 4 (\<lambda>i. 0)"
  let ?h = "Histogram_feed ?ops (map Fin [5, 7]) (NewHistogram NewUniformSample)"
  have c: "count ?h \<noteq> 0" using example_histogram_state by simp
  have v: "Sample_Values ?ops (sample ?h) = map Fin [5, 7]" using example_histogram_state by simp
  have ne: "[5, 7] \<noteq> ([] :: real list)" by simp
  have len: "Suc (length [5 :: real, 7]) < 2 ^ 63" by simp
  have rng: "\<forall>q\<in>set [1 / 2]. \<bar>q * real (length [5 :: real, 7] + 1)\<bar> < 2 ^ 63" by simp
  show ?thesis
    using Histogram_Percentiles_spec [OF c v ne len rng, of "\<lambda>x. 0"] percentile_spec_example by simp
qed

text \<open>
  C6. With a count of zero \<^verbatim>\<open>Percentiles\<close> returns one zero for each requested
  percentile. With another count and a non-empty snapshot it returns one value for each
  requested percentile, and the value at position \<open>i\<close> is the score of the percentile
  requested at position \<open>i\<close>. This holds for every requested value, NaN and the
  infinities included, and whatever \<^verbatim>\<open>int(pos)\<close> yields where Go leaves it open.
\<close>

theorem Histogram_Percentiles_one_per_request:
  "(count h = 0 \<longrightarrow>
      Histogram_Percentiles ops unrep ps h = Inr (replicate (length ps) (Fin 0))) \<and>
   (count h \<noteq> 0 \<and> Sample_Values ops (sample h) \<noteq> [] \<longrightarrow>
      (\<exists>vs. Histogram_Percentiles ops unrep ps h = Inr vs \<and> length vs = length ps \<and>
            (\<forall>i<length ps.
               score unrep (sort_Float64Slice (Sample_Values ops (sample h))) (ps ! i)
                 = Inr (vs ! i))))"
proof -
  let ?sorted = "sort_Float64Slice (Sample_Values ops (sample h))"
  let ?f = "\<lambda>p. projr (score unrep ?sorted p)"
  have second: "\<exists>vs. Histogram_Percentiles ops unrep ps h = Inr vs \<and> length vs = length ps \<and>
      (\<forall>i<length ps. score unrep ?sorted (ps ! i) = Inr (vs ! i))"
    if c: "count h \<noteq> 0" and ne: "Sample_Values ops (sample h) \<noteq> []"
  proof -
    have "?sorted \<noteq> []"
      using ne sort_Float64Slice_length [of "Sample_Values ops (sample h)"] by auto
    then have sc: "score unrep ?sorted p = Inr (?f p)" for p
      using score_total [of ?sorted unrep p] by auto
    then have "\<forall>p\<in>set ps. score unrep ?sorted p = Inr (?f p)" by simp
    then have "Histogram_Percentiles ops unrep ps h = Inr (map ?f ps)"
      by (rule Percentiles_scores [OF c])
    moreover have "\<forall>i<length ps. score unrep ?sorted (ps ! i) = Inr (map ?f ps ! i)"
      using sc by simp
    ultimately show ?thesis by (metis length_map)
  qed
  show ?thesis using Percentiles_empty_count second by blast
qed

text \<open>
  C6 on a fresh Histogram and on one that holds 5 and 7, for the percentiles 0.5 and 1.
\<close>

theorem Histogram_Percentiles_one_per_request_witness:
  "count (NewHistogram NewUniformSample) = 0 \<and>
   Histogram_Percentiles (UniformSample 4 (\<lambda>i. 0)) (\<lambda>x. 0) [Fin (1 / 2), Fin 1]
     (NewHistogram NewUniformSample) = Inr [Fin 0, Fin 0] \<and>
   count (Histogram_feed (UniformSample 4 (\<lambda>i. 0)) (map Fin [5, 7]) (NewHistogram NewUniformSample))
     \<noteq> 0 \<and>
   Sample_Values (UniformSample 4 (\<lambda>i. 0))
     (sample (Histogram_feed (UniformSample 4 (\<lambda>i. 0)) (map Fin [5, 7])
        (NewHistogram NewUniformSample))) \<noteq> [] \<and>
   (\<exists>vs. Histogram_Percentiles (UniformSample 4 (\<lambda>i. 0)) (\<lambda>x. 0) [Fin (1 / 2), Fin 1]
           (Histogram_feed (UniformSample 4 (\<lambda>i. 0)) (map Fin [5, 7])
              (NewHistogram NewUniformSample)) = Inr vs \<and>
         length vs = 2)"
proof -
  let ?ops = "UniformSample 4 (\<lambda>i. 0)"
  let ?h = "Histogram_feed ?ops (map Fin [5, 7]) (NewHistogram NewUniformSample)"
  have c0: "count (NewHistogram NewUniformSample) = 0" by (simp add: NewHistogram_def)
  have c: "count ?h \<noteq> 0" using example_histogram_state by simp
  have v: "Sample_Values ?ops (sample ?h) \<noteq> []" using example_histogram_state by simp
  have a: "Histogram_Percentiles ?ops (\<lambda>x. 0) [Fin (1 / 2), Fin 1] (NewHistogram NewUniformSample)
      = Inr [Fin 0, Fin 0]"
    using c0 Histogram_Percentiles_one_per_request
      [of "NewHistogram NewUniformSample" ?ops "\<lambda>x. 0" "[Fin (1 / 2), Fin 1]"]
    by (simp add: numeral_2_eq_2)
  have b: "\<exists>vs. Histogram_Percentiles ?ops (\<lambda>x. 0) [Fin (1 / 2), Fin 1] ?h = Inr vs \<and>
      length vs = 2"
    using c v Histogram_Percentiles_one_per_request [of ?h ?ops "\<lambda>x. 0" "[Fin (1 / 2), Fin 1]"]
    by auto
  show ?thesis using c0 c v a b by blast
qed

text \<open>
  C9. The Sample keeps its contract that \<^verbatim>\<open>Clear\<close> empties it, and the fresh Histogram
  is built on an empty Sample. Then every accessor returns after \<^verbatim>\<open>Clear\<close> what it
  returns on the fresh Histogram: 0 for \<^verbatim>\<open>Count\<close>, \<^verbatim>\<open>Sum\<close>, \<^verbatim>\<open>Mean\<close>, \<^verbatim>\<open>Variance\<close> and
  \<^verbatim>\<open>StdDev\<close>, NaN for \<^verbatim>\<open>Min\<close> and \<^verbatim>\<open>Max\<close>, zeros for \<^verbatim>\<open>Percentiles\<close>, no values
  for \<^verbatim>\<open>Values\<close>.
\<close>

theorem Histogram_Clear_like_new:
  assumes "Sample_Values ops (Sample_Clear ops (sample h)) = []"
    and "Sample_Values ops s0 = []"
  shows "Histogram_Count (Histogram_Clear ops h) = Histogram_Count (NewHistogram s0) \<and>
         Histogram_Sum (Histogram_Clear ops h) = Histogram_Sum (NewHistogram s0) \<and>
         Histogram_Min (Histogram_Clear ops h) = Histogram_Min (NewHistogram s0) \<and>
         Histogram_Max (Histogram_Clear ops h) = Histogram_Max (NewHistogram s0) \<and>
         Histogram_Mean (Histogram_Clear ops h) = Histogram_Mean (NewHistogram s0) \<and>
         Histogram_Variance (Histogram_Clear ops h) = Histogram_Variance (NewHistogram s0) \<and>
         Histogram_StdDev (Histogram_Clear ops h) = Histogram_StdDev (NewHistogram s0) \<and>
         Histogram_Percentiles ops unrep ps (Histogram_Clear ops h)
           = Histogram_Percentiles ops unrep ps (NewHistogram s0) \<and>
         Histogram_Values ops (Histogram_Clear ops h) = Histogram_Values ops (NewHistogram s0) \<and>
         Histogram_Count (Histogram_Clear ops h) = 0 \<and>
         Histogram_Sum (Histogram_Clear ops h) = Fin 0 \<and>
         Histogram_Min (Histogram_Clear ops h) = NaN \<and>
         Histogram_Max (Histogram_Clear ops h) = NaN \<and>
         Histogram_Mean (Histogram_Clear ops h) = Fin 0 \<and>
         Histogram_Variance (Histogram_Clear ops h) = Fin 0 \<and>
         Histogram_StdDev (Histogram_Clear ops h) = Fin 0 \<and>
         Histogram_Percentiles ops unrep ps (Histogram_Clear ops h)
           = Inr (replicate (length ps) (Fin 0)) \<and>
         Histogram_Values ops (Histogram_Clear ops h) = []"
  using assms
  by (simp add: Histogram_Clear_def NewHistogram_def Histogram_Count_def Histogram_Sum_def
      Histogram_Min_def Histogram_Max_def Histogram_Mean_def Histogram_Variance_def
      Histogram_StdDev_def Histogram_Percentiles_def Histogram_Values_def)

text \<open>
  C9 on a Histogram that holds 5 and 7 in a UniformSample.
\<close>

theorem Histogram_Clear_like_new_witness:
  "Sample_Values (UniformSample 4 (\<lambda>i. 0))
     (Sample_Clear (UniformSample 4 (\<lambda>i. 0))
        (sample (Histogram_feed (UniformSample 4 (\<lambda>i. 0)) (map Fin [5, 7])
           (NewHistogram NewUniformSample)))) = [] \<and>
   Sample_Values (UniformSample 4 (\<lambda>i. 0)) NewUniformSample = [] \<and>
   Histogram_Min (Histogram_Clear (UniformSample 4 (\<lambda>i. 0))
       (Histogram_feed (UniformSample 4 (\<lambda>i. 0)) (map Fin [5, 7])
          (NewHistogram NewUniformSample))) = NaN \<and>
   Histogram_Values (UniformSample 4 (\<lambda>i. 0))
     (Histogram_Clear (UniformSample 4 (\<lambda>i. 0))
       (Histogram_feed (UniformSample 4 (\<lambda>i. 0)) (map Fin [5, 7])
          (NewHistogram NewUniformSample)))
     = Histogram_Values (UniformSample 4 (\<lambda>i. 0)) (NewHistogram NewUniformSample)"
proof -
  let ?ops = "UniformSample 4 (\<lambda>i. 0)"
  let ?h = "Histogram_feed ?ops (map Fin [5, 7]) (NewHistogram NewUniformSample)"
  have a: "Sample_Values ?ops (Sample_Clear ?ops (sample ?h)) = []"
    by (simp add: UniformSample_def)
  have b: "Sample_Values ?ops NewUniformSample = []"
    by (simp add: UniformSample_def NewUniformSample_def)
  show ?thesis
    using a b Histogram_Clear_like_new [OF a b, of "\<lambda>x. 0" "[]"] by blast
qed

end
